theory Spec2Isabelle
  imports Complex_Main "HOL-Library.Word" "HOL-Library.Log_Nat"
begin

section \<open>IControls.h: the widget classes of IGraphics\<close>

text \<open>
  The header declares the widget classes of the toolkit. Most member functions are only
  declared there; the ones with a body in the header are embedded below, each next to the
  C++ it comes from. A C string is modelled by the list of its characters before the
  terminating NUL, a \<open>WDL_String\<close> by the string it holds (\<open>Set\<close> stores a copy,
  \<open>Get\<close> reads it).
\<close>

subsection \<open>C strings\<close>

text \<open>
  \<open>strcmp\<close> of the C library: zero when the two strings are equal, otherwise negative or
  positive as the first differing character (compared as \<open>unsigned char\<close>, the terminator
  being the smallest) is smaller or larger in the first string. The C standard fixes only
  the sign of the result, which is what the model returns.
\<close>

fun strcmp :: "string \<Rightarrow> string \<Rightarrow> int" where
  "strcmp [] [] = 0"
| "strcmp [] (b # bs) = - 1"
| "strcmp (a # as) [] = 1"
| "strcmp (a # as) (b # bs) =
     (if a = b then strcmp as bs
      else if (of_char a :: nat) < of_char b then - 1 else 1)"

subsection \<open>The base class\<close>

text \<open>
  Every widget holds the subobject of its base class \<open>IControl\<close>, which is declared in
  \<open>IControl.h\<close>. Its members (among them \<open>mRECT\<close>, \<open>mText\<close>, \<open>mBlend\<close> and whatever
  \<open>SetDirty\<close> writes) are kept as one opaque value of type \<open>'c\<close>; the member function
  \<open>SetDirty(bool)\<close> of the base class is a parameter \<open>SetDirty :: bool \<Rightarrow> 'c \<Rightarrow> 'c\<close> of
  the operations that call it, so that it can touch the base subobject and nothing else.
\<close>

record 'c IControl =
  inherited :: 'c

subsection \<open>IBitmapTextControl\<close>

text \<open>
  \<^verbatim>\<open>
  class IBitmapTextControl : public IControl
  { ...
  protected:
    WDL_String mStr;
    int mCharWidth, mCharHeight, mCharOffset;
    IBitmap mTextBitmap;
    bool mMultiLine;
    bool mVCentre;
  };
  \<close>
  \<open>IBitmap\<close> is declared outside the header: the type \<open>'bm\<close>.
\<close>

record ('c, 'bm) IBitmapTextControl = "'c IControl" +
  mStr :: string
  mCharWidth :: int
  mCharHeight :: int
  mCharOffset :: int
  mTextBitmap :: 'bm
  mMultiLine :: bool
  mVCentre :: bool

text \<open>
  \<^verbatim>\<open>
  void SetTextFromPlug(const char* str)
  {
    if (strcmp(mStr.Get(), str))
    {
      SetDirty(false);
      mStr.Set(str);
    }
  }
  \<close>
\<close>

definition SetTextFromPlug ::
  "(bool \<Rightarrow> 'c \<Rightarrow> 'c) \<Rightarrow> string \<Rightarrow> ('c, 'bm) IBitmapTextControl \<Rightarrow> ('c, 'bm) IBitmapTextControl"
where
  "SetTextFromPlug SetDirty str c =
     (if strcmp (mStr c) str \<noteq> 0
      then (c\<lparr>inherited := SetDirty False (inherited c)\<rparr>)\<lparr>mStr := str\<rparr>
      else c)"

text \<open>
  \<^verbatim>\<open>
  void ClearTextFromPlug()
  {
    SetTextFromPlug("");
  }
  \<close>
\<close>

definition ClearTextFromPlug ::
  "(bool \<Rightarrow> 'c \<Rightarrow> 'c) \<Rightarrow> ('c, 'bm) IBitmapTextControl \<Rightarrow> ('c, 'bm) IBitmapTextControl"
where
  "ClearTextFromPlug SetDirty c = SetTextFromPlug SetDirty '''' c"

subsection \<open>Drawing\<close>

text \<open>
  The graphics backend behind \<open>IGraphics&\<close> is outside the header. A graphics context is
  modelled by the sequence of drawing calls it has received, and \<open>Draw\<close> by the context
  it leaves behind. The one drawing call made in the header is
  \<^verbatim>\<open>
  graphics.DrawBitmapedText(mTextBitmap, mRECT, mText, &mBlend, mStr.Get(), mVCentre,
                            mMultiLine, mCharWidth, mCharHeight, mCharOffset);
  \<close>
  whose arguments \<open>mRECT\<close>, \<open>mText\<close> and \<open>&mBlend\<close> are members of the base subobject,
  which stands for the three of them.
\<close>

datatype ('c, 'bm) draw_call =
  DrawBitmapedText 'bm 'c string bool bool int int int

type_synonym ('c, 'bm) IGraphics = "('c, 'bm) draw_call list"

text \<open>
  \<^verbatim>\<open>
  void Draw(IGraphics& graphics)
  {
    if (CSTR_NOT_EMPTY(mStr.Get()))
    {
      graphics.DrawBitmapedText(...);
    }
  }
  \<close>
  The macro \<open>CSTR_NOT_EMPTY\<close> is defined outside the header: it is the parameter
  \<open>CSTR_NOT_EMPTY\<close>, a test on C strings.
\<close>

definition IBitmapTextControl_Draw ::
  "(string \<Rightarrow> bool) \<Rightarrow> ('c, 'bm) IBitmapTextControl \<Rightarrow> ('c, 'bm) IGraphics \<Rightarrow> ('c, 'bm) IGraphics"
where
  "IBitmapTextControl_Draw CSTR_NOT_EMPTY c graphics =
     (if CSTR_NOT_EMPTY (mStr c)
      then graphics @
        [DrawBitmapedText (mTextBitmap c) (inherited c) (mStr c) (mVCentre c) (mMultiLine c)
           (mCharWidth c) (mCharHeight c) (mCharOffset c)]
      else graphics)"

subsection \<open>IURLControl\<close>

text \<open>
  \<^verbatim>\<open>
  class IURLControl : public IControl
  { ...
    void Draw(IGraphics& graphics) override {}
  protected:
    WDL_String mURL, mBackupURL, mErrMsg;
  };
  \<close>
\<close>

record 'c IURLControl = "'c IControl" +
  mURL :: string
  mBackupURL :: string
  mErrMsg :: string

definition IURLControl_Draw ::
  "'c IURLControl \<Rightarrow> ('c, 'bm) IGraphics \<Rightarrow> ('c, 'bm) IGraphics"
where
  "IURLControl_Draw c graphics = graphics"

subsection \<open>Division of doubles\<close>

text \<open>
  A value of type \<open>double\<close> (IEEE 754 binary64): a finite number, which is a rational,
  with \<open>Finite 0\<close> for the zero of positive sign and \<open>MinusZero\<close> for the zero of negative
  sign; the two infinities; and not-a-number.
\<close>

datatype double = Finite rat | MinusZero | PlusInfinity | MinusInfinity | NaN

text \<open>The number a double stands for, when it is finite.\<close>

fun valof :: "double \<Rightarrow> rat option" where
  "valof (Finite r) = Some r"
| "valof MinusZero = Some 0"
| "valof PlusInfinity = None"
| "valof MinusInfinity = None"
| "valof NaN = None"

text \<open>
  The finite numbers of binary64: an integer of fewer than 54 bits, of either sign, times a
  power of two from \<open>2 ^ - 1074\<close>, the smallest subnormal number, up to \<open>2 ^ 971\<close>.
\<close>

definition is_binary64 :: "rat \<Rightarrow> bool" where
  "is_binary64 r \<longleftrightarrow>
     (\<exists>m e. r = of_int m * 2 powi e \<and> \<bar>m\<bar> < 2 ^ 53 \<and> - 1074 \<le> e \<and> e \<le> 971)"

text \<open>
  The quotient of two positive integers \<open>a\<close> and \<open>b\<close>, rounded to binary64 in the default
  rounding mode (to nearest, ties to even). With \<open>L = floor_log2 a b\<close> the largest
  integer such that \<open>2 ^ L \<le> a / b\<close>, the significand of the result is \<open>a / b\<close> scaled by
  \<open>2 ^ (52 - L)\<close>, which lies between \<open>2 ^ 52\<close> and \<open>2 ^ 53\<close>, rounded to an integer; the
  result is that integer scaled back. The scaling is done on the integers: \<open>shift_left x k\<close>
  multiplies by \<open>2 ^ k\<close> when \<open>k\<close> is positive and leaves \<open>x\<close> alone otherwise.
\<close>

definition shift_left :: "int \<Rightarrow> int \<Rightarrow> int" where
  "shift_left x k = x * 2 ^ nat k"

definition floor_log2 :: "int \<Rightarrow> int \<Rightarrow> int" where
  "floor_log2 a b =
     (let d = bitlen a - bitlen b
      in if shift_left b d \<le> shift_left a (- d) then d else d - 1)"

definition round_nearest_even :: "int \<Rightarrow> int \<Rightarrow> int" where
  "round_nearest_even n d =
     (let m = n div d; r = n mod d
      in if 2 * r < d then m else if d < 2 * r then m + 1 else if even m then m else m + 1)"

definition binary64_quotient :: "int \<Rightarrow> int \<Rightarrow> rat" where
  "binary64_quotient a b =
     (let e = floor_log2 a b - 52;
          m = round_nearest_even (shift_left a (- e)) (shift_left b e)
      in of_int m * 2 powi e)"

text \<open>
  The operator \<open>/\<close> on two doubles that hold the integers \<open>a\<close> and \<open>b\<close>, as it is applied in
  \<open>(double) mHandleHeadroom / (double) mLen\<close>. An \<open>int\<close> has 32 bits and converts to
  \<open>double\<close> exactly, zero to the zero of positive sign. A quotient of two such integers
  that is not zero has a magnitude between \<open>1 / 2 ^ 31\<close> and \<open>2 ^ 31\<close>, far from overflow and from
  the subnormal numbers, so the rounding above is all there is to the result. Dividing by
  zero raises no error: it returns an infinity with the sign of the dividend, and
  not-a-number for \<open>0 / 0\<close>.
\<close>

definition double_div :: "int \<Rightarrow> int \<Rightarrow> double" where
  "double_div a b =
     (if b = 0 then (if 0 < a then PlusInfinity else if a < 0 then MinusInfinity else NaN)
      else if a = 0 then (if b < 0 then MinusZero else Finite 0)
      else if (a < 0) = (b < 0) then Finite (binary64_quotient \<bar>a\<bar> \<bar>b\<bar>)
      else Finite (- binary64_quotient \<bar>a\<bar> \<bar>b\<bar>))"

subsection \<open>IFaderControl\<close>

text \<open>
  \<^verbatim>\<open>
  class IFaderControl : public IControl
  { ...
    double GetHandleValueHeadroom() const { return (double) mHandleHeadroom / (double) mLen; }
  protected:
    int mLen, mHandleHeadroom;
    IBitmap mBitmap;
    EDirection mDirection;
    bool mOnlyHandle;
  };
  \<close>
  \<open>EDirection\<close> is declared outside the header: the type \<open>'dir\<close>. The two \<open>int\<close> members
  are words of 32 bits, read as signed numbers by \<open>sint\<close>.
\<close>

record ('c, 'bm, 'dir) IFaderControl = "'c IControl" +
  mLen :: "32 word"
  mHandleHeadroom :: "32 word"
  mBitmap :: 'bm
  mDirection :: 'dir
  mOnlyHandle :: bool

definition GetHandleValueHeadroom :: "('c, 'bm, 'dir) IFaderControl \<Rightarrow> double" where
  "GetHandleValueHeadroom f = double_div (sint (mHandleHeadroom f)) (sint (mLen f))"

subsection \<open>The class hierarchy\<close>

text \<open>
  The classes the header declares, and the three classes of \<open>IControl.h\<close> they name as
  a base: \<open>IControl\<close>, \<open>IBitmapControl\<close> and \<open>ITextControl\<close>.
\<close>

datatype cls =
    IControl | IBitmapControl | ITextControl
  | ISwitchControl | ISwitchPopUpControl | ISwitchFramesControl | IInvisibleSwitchControl
  | IRadioButtonsControl | IContactControl | IFaderControl
  | IKnobControl | IKnobLineControl | IKnobRotaterControl | IKnobMultiControl
  | IKnobRotatingMaskControl | IBitmapOverlayControl | ICaptionControl | IURLControl
  | IFileSelectorControl | IBitmapTextControl

text \<open>
  Modelled from the spec: the declarations of \<open>IBitmapControl\<close> and \<open>ITextControl\<close> are in
  \<open>IControl.h\<close>, which is not part of the source. The spec has the widgets "all composed
  from a common base control abstraction", so both are taken to derive from \<open>IControl\<close>,
  which has no base itself.
\<close>

fun base_class_IControl_h :: "cls \<Rightarrow> cls option" where
  "base_class_IControl_h IBitmapControl = Some IControl"
| "base_class_IControl_h ITextControl = Some IControl"
| "base_class_IControl_h c = None"

text \<open>
  The base each class head of the header names, as in
  \<^verbatim>\<open>class ISwitchControl : public IBitmapControl\<close>, in the order of the header.
\<close>

fun base_class :: "cls \<Rightarrow> cls option" where
  "base_class ISwitchControl = Some IBitmapControl"
| "base_class ISwitchPopUpControl = Some ISwitchControl"
| "base_class ISwitchFramesControl = Some ISwitchControl"
| "base_class IInvisibleSwitchControl = Some IControl"
| "base_class IRadioButtonsControl = Some IControl"
| "base_class IContactControl = Some ISwitchControl"
| "base_class IFaderControl = Some IControl"
| "base_class IKnobControl = Some IControl"
| "base_class IKnobLineControl = Some IKnobControl"
| "base_class IKnobRotaterControl = Some IKnobControl"
| "base_class IKnobMultiControl = Some IKnobControl"
| "base_class IKnobRotatingMaskControl = Some IKnobControl"
| "base_class IBitmapOverlayControl = Some ISwitchControl"
| "base_class ICaptionControl = Some ITextControl"
| "base_class IURLControl = Some IControl"
| "base_class IFileSelectorControl = Some IControl"
| "base_class IBitmapTextControl = Some IControl"
| "base_class c = base_class_IControl_h c"

definition widget_classes :: "cls list" where
  "widget_classes =
     [ISwitchControl, ISwitchPopUpControl, ISwitchFramesControl, IInvisibleSwitchControl,
      IRadioButtonsControl, IContactControl, IFaderControl, IKnobControl, IKnobLineControl,
      IKnobRotaterControl, IKnobMultiControl, IKnobRotatingMaskControl, IBitmapOverlayControl,
      ICaptionControl, IURLControl, IFileSelectorControl, IBitmapTextControl]"

text \<open>A class derives from its base and from whatever its base derives from.\<close>

inductive derives_from :: "cls \<Rightarrow> cls \<Rightarrow> bool" where
  direct: "base_class c = Some b \<Longrightarrow> derives_from c b"
| transitive: "base_class c = Some b \<Longrightarrow> derives_from b a \<Longrightarrow> derives_from c a"

code_pred derives_from .

text \<open>
  The kind of widget each class is, read off the comment above its declaration ("A
  switch.", "A fader with a bitmap for the handle.", "Parent for knobs", "A set of buttons
  that maps to a single selection.", "Displays the value of a parameter.", "Clickable
  URL area", "Display monospace bitmap font text"). The bitmap overlay and the file
  selector are of none of the kinds listed.
\<close>

datatype widget_kind = Knob | Slider | Switch | RadioButtons | Caption | URLLink | BitmapText

fun kind :: "cls \<Rightarrow> widget_kind option" where
  "kind ISwitchControl = Some Switch"
| "kind ISwitchPopUpControl = Some Switch"
| "kind ISwitchFramesControl = Some Switch"
| "kind IInvisibleSwitchControl = Some Switch"
| "kind IRadioButtonsControl = Some RadioButtons"
| "kind IContactControl = Some Switch"
| "kind IFaderControl = Some Slider"
| "kind IKnobControl = Some Knob"
| "kind IKnobLineControl = Some Knob"
| "kind IKnobRotaterControl = Some Knob"
| "kind IKnobMultiControl = Some Knob"
| "kind IKnobRotatingMaskControl = Some Knob"
| "kind ICaptionControl = Some Caption"
| "kind IURLControl = Some URLLink"
| "kind IBitmapTextControl = Some BitmapText"
| "kind c = None"

subsection \<open>ISwitchControl\<close>

text \<open>
  Modelled from the spec: \<open>ISwitchControl::OnMouseDown\<close> is only declared in the header;
  its body is not part of the source. The spec has the controls "cycling bitmap frames",
  and the comment above the class reads "A switch. Click to cycle through the bitmap
  states." The value of a switch is taken to be the index of the bitmap state shown, one
  of \<open>0, \<dots>, N - 1\<close> for a bitmap of \<open>N\<close> states; a click moves to the next state, and
  from the last state to the first. The position of the click and the modifier keys play
  no part.
\<close>

definition ISwitchControl_OnMouseDown :: "nat \<Rightarrow> nat \<Rightarrow> nat" where
  "ISwitchControl_OnMouseDown N state = (if state + 1 < N then state + 1 else 0)"

section \<open>Properties\<close>

subsection \<open>String comparison\<close>

lemma strcmp_refl: "strcmp s s = 0"
  by (induction s) simp_all

lemma strcmp_zero_eq: "strcmp s t = 0 \<Longrightarrow> s = t"
  by (induction s t rule: strcmp.induct) (simp_all split: if_splits)

lemma strcmp_eq_0_iff: "strcmp s t = 0 \<longleftrightarrow> s = t"
  using strcmp_refl strcmp_zero_eq by blast

subsection \<open>Setting the text of a bitmap text control\<close>

text \<open>
  C8. \<open>SetTextFromPlug(s)\<close> on a control whose stored text already equals \<open>s\<close> returns the
  control as it was, whatever \<open>SetDirty\<close> would do: it is not called and no member
  changes. On a control with a different text, the result is the control after
  \<open>SetDirty(false)\<close> on its base subobject and then the assignment of \<open>s\<close> to the stored
  text. In both cases the stored text is \<open>s\<close> afterwards.
\<close>

theorem SetTextFromPlug_effect:
  "(mStr c = s \<longrightarrow> SetTextFromPlug SetDirty s c = c) \<and>
   (mStr c \<noteq> s \<longrightarrow>
      SetTextFromPlug SetDirty s c =
        (c\<lparr>inherited := SetDirty False (inherited c)\<rparr>)\<lparr>mStr := s\<rparr>) \<and>
   mStr (SetTextFromPlug SetDirty s c) = s"
  by (simp add: SetTextFromPlug_def strcmp_eq_0_iff)

text \<open>
  The witness takes for the base subobject the log of the \<open>SetDirty\<close> calls it has
  received: setting the text it already has leaves the log empty, setting another text
  logs the one call \<open>SetDirty(false)\<close>.
\<close>

theorem SetTextFromPlug_effect_witness:
  "SetTextFromPlug (\<lambda>b log. log @ [b]) ''abc''
     \<lparr>inherited = [], mStr = ''abc'', mCharWidth = 6, mCharHeight = 12, mCharOffset = 0,
      mTextBitmap = (), mMultiLine = False, mVCentre = True\<rparr>
   = \<lparr>inherited = [], mStr = ''abc'', mCharWidth = 6, mCharHeight = 12, mCharOffset = 0,
      mTextBitmap = (), mMultiLine = False, mVCentre = True\<rparr>
   \<and>
   SetTextFromPlug (\<lambda>b log. log @ [b]) ''xy''
     \<lparr>inherited = [], mStr = ''abc'', mCharWidth = 6, mCharHeight = 12, mCharOffset = 0,
      mTextBitmap = (), mMultiLine = False, mVCentre = True\<rparr>
   = \<lparr>inherited = [False], mStr = ''xy'', mCharWidth = 6, mCharHeight = 12, mCharOffset = 0,
      mTextBitmap = (), mMultiLine = False, mVCentre = True\<rparr>"
  using
    SetTextFromPlug_effect [of
      "\<lparr>inherited = [], mStr = ''abc'', mCharWidth = 6, mCharHeight = 12, mCharOffset = 0,
        mTextBitmap = (), mMultiLine = False, mVCentre = True\<rparr>"
      "''abc''" "\<lambda>b log. log @ [b]"]
    SetTextFromPlug_effect [of
      "\<lparr>inherited = [], mStr = ''abc'', mCharWidth = 6, mCharHeight = 12, mCharOffset = 0,
        mTextBitmap = (), mMultiLine = False, mVCentre = True\<rparr>"
      "''xy''" "\<lambda>b log. log @ [b]"]
  by simp

text \<open>
  C9. \<open>ClearTextFromPlug()\<close> is the same state transition as \<open>SetTextFromPlug("")\<close>: a
  control whose stored text is already empty is returned unchanged, any other control has
  \<open>SetDirty(false)\<close> applied and its text emptied, and the stored text is empty afterwards.
\<close>

theorem ClearTextFromPlug_is_SetTextFromPlug_empty:
  "ClearTextFromPlug SetDirty c = SetTextFromPlug SetDirty '''' c \<and>
   (mStr c = '''' \<longrightarrow> ClearTextFromPlug SetDirty c = c) \<and>
   (mStr c \<noteq> '''' \<longrightarrow>
      ClearTextFromPlug SetDirty c =
        (c\<lparr>inherited := SetDirty False (inherited c)\<rparr>)\<lparr>mStr := ''''\<rparr>) \<and>
   mStr (ClearTextFromPlug SetDirty c) = ''''"
  by (simp add: ClearTextFromPlug_def SetTextFromPlug_def strcmp_eq_0_iff)

theorem ClearTextFromPlug_is_SetTextFromPlug_empty_witness:
  "ClearTextFromPlug (\<lambda>b log. log @ [b])
     \<lparr>inherited = [True], mStr = '''', mCharWidth = 6, mCharHeight = 12, mCharOffset = 0,
      mTextBitmap = (), mMultiLine = False, mVCentre = True\<rparr>
   = \<lparr>inherited = [True], mStr = '''', mCharWidth = 6, mCharHeight = 12, mCharOffset = 0,
      mTextBitmap = (), mMultiLine = False, mVCentre = True\<rparr>
   \<and>
   ClearTextFromPlug (\<lambda>b log. log @ [b])
     \<lparr>inherited = [True], mStr = ''gain'', mCharWidth = 6, mCharHeight = 12, mCharOffset = 0,
      mTextBitmap = (), mMultiLine = False, mVCentre = True\<rparr>
   = \<lparr>inherited = [True, False], mStr = '''', mCharWidth = 6, mCharHeight = 12,
      mCharOffset = 0, mTextBitmap = (), mMultiLine = False, mVCentre = True\<rparr>"
  using
    ClearTextFromPlug_is_SetTextFromPlug_empty [of "\<lambda>b log. log @ [b]"
      "\<lparr>inherited = [True], mStr = '''', mCharWidth = 6, mCharHeight = 12, mCharOffset = 0,
        mTextBitmap = (), mMultiLine = False, mVCentre = True\<rparr>", THEN conjunct2]
    ClearTextFromPlug_is_SetTextFromPlug_empty [of "\<lambda>b log. log @ [b]"
      "\<lparr>inherited = [True], mStr = ''gain'', mCharWidth = 6, mCharHeight = 12, mCharOffset = 0,
        mTextBitmap = (), mMultiLine = False, mVCentre = True\<rparr>", THEN conjunct2]
  by simp

subsection \<open>Drawing\<close>

text \<open>
  C5, as stated: every \<open>Draw\<close> issues at least one bitmap drawing call, on every control
  and every graphics context. The claim fails on \<open>IURLControl\<close>, whose \<open>Draw\<close> has an
  empty body: a fresh graphics context is still fresh after it.
\<close>

theorem IURLControl_Draw_issues_nothing:
  "length (IURLControl_Draw
      \<lparr>inherited = (), mURL = ''http://example.com'', mBackupURL = '''', mErrMsg = ''''\<rparr>
      ([] :: (unit, unit) IGraphics)) = 0"
  by (simp add: IURLControl_Draw_def)

text \<open>
  C5, amended: of the two \<open>Draw\<close> functions with a body in the header,
  \<open>IURLControl::Draw\<close> issues no drawing call on any graphics context, and
  \<open>IBitmapTextControl::Draw\<close> issues exactly one, \<open>DrawBitmapedText\<close> of the stored text
  with the control's bitmap and character metrics, when the stored text passes
  \<open>CSTR_NOT_EMPTY\<close>, and none when it does not.
\<close>

theorem Draw_calls_issued:
  "IURLControl_Draw u g = g \<and>
   (CSTR_NOT_EMPTY (mStr t) \<longrightarrow>
      IBitmapTextControl_Draw CSTR_NOT_EMPTY t g =
        g @ [DrawBitmapedText (mTextBitmap t) (inherited t) (mStr t) (mVCentre t) (mMultiLine t)
               (mCharWidth t) (mCharHeight t) (mCharOffset t)]) \<and>
   (\<not> CSTR_NOT_EMPTY (mStr t) \<longrightarrow> IBitmapTextControl_Draw CSTR_NOT_EMPTY t g = g)"
  by (simp add: IURLControl_Draw_def IBitmapTextControl_Draw_def)

theorem Draw_calls_issued_witness:
  "IBitmapTextControl_Draw (\<lambda>s. s \<noteq> [])
     \<lparr>inherited = (), mStr = ''-6 dB'', mCharWidth = 6, mCharHeight = 12, mCharOffset = 0,
      mTextBitmap = (), mMultiLine = False, mVCentre = True\<rparr> []
   = [DrawBitmapedText () () ''-6 dB'' True False 6 12 0]
   \<and>
   IBitmapTextControl_Draw (\<lambda>s. s \<noteq> [])
     \<lparr>inherited = (), mStr = '''', mCharWidth = 6, mCharHeight = 12, mCharOffset = 0,
      mTextBitmap = (), mMultiLine = False, mVCentre = True\<rparr>
     [DrawBitmapedText () () ''A'' True False 6 12 0]
   = [DrawBitmapedText () () ''A'' True False 6 12 0]"
  using
    Draw_calls_issued [of _ "[]" "\<lambda>s. s \<noteq> []"
      "\<lparr>inherited = (), mStr = ''-6 dB'', mCharWidth = 6, mCharHeight = 12, mCharOffset = 0,
        mTextBitmap = (), mMultiLine = False, mVCentre = True\<rparr>"]
    Draw_calls_issued [of _ "[DrawBitmapedText () () ''A'' True False 6 12 0]" "\<lambda>s. s \<noteq> []"
      "\<lparr>inherited = (), mStr = '''', mCharWidth = 6, mCharHeight = 12, mCharOffset = 0,
        mTextBitmap = (), mMultiLine = False, mVCentre = True\<rparr>"]
  by simp

subsection \<open>The handle headroom of a fader\<close>

lemma shift_left_pos: "0 < x \<Longrightarrow> 0 < shift_left x k"
  by (simp add: shift_left_def)

lemma shift_ratio:
  "(of_int (shift_left a (- k)) :: rat) / of_int (shift_left b k)
     = of_int a / of_int b * 2 powi (- k)"
proof (cases "0 \<le> k")
  case True
  then have "nat (- k) = 0"
    by simp
  moreover from True have "2 powi (- k) = 1 / (2 :: rat) ^ nat k"
    by (simp add: power_int_minus_divide power_int_nonneg_exp)
  ultimately show ?thesis
    by (simp add: shift_left_def)
next
  case False
  then have "nat k = 0"
    by simp
  moreover from False have "2 powi (- k) = (2 :: rat) ^ nat (- k)"
    by (simp add: power_int_nonneg_exp)
  ultimately show ?thesis
    by (simp add: shift_left_def)
qed

lemma round_nearest_even_error:
  assumes "0 < d"
  shows "\<bar>of_int (round_nearest_even n d) - of_int n / of_int d\<bar> \<le> (1 / 2 :: rat)"
proof -
  define m r where "m = n div d" and "r = n mod d"
  define x :: rat where "x = of_int r / of_int d"
  have n: "n = d * m + r"
    by (simp add: m_def r_def)
  have r: "0 \<le> r" "r < d"
    using assms by (simp_all add: r_def)
  have d: "(0 :: rat) < of_int d"
    using assms by simp
  have "(of_int n :: rat) = of_int d * of_int m + of_int r"
    by (simp add: n)
  then have quot: "(of_int n :: rat) / of_int d = of_int m + x"
    using d by (simp add: x_def add_divide_distrib)
  have x_times: "x * of_int d = of_int r"
    using d by (simp add: x_def)
  have x_half: "(x < 1 / 2) = (2 * r < d)" "(1 / 2 < x) = (d < 2 * r)"
  proof -
    have "(x < 1 / 2) = (of_int r < 1 / 2 * (of_int d :: rat))"
      using d by (simp add: x_def pos_divide_less_eq)
    also have "\<dots> = ((of_int (2 * r) :: rat) < of_int d)"
      by (simp add: mult.commute)
    also have "\<dots> = (2 * r < d)"
      by (simp only: of_int_less_iff)
    finally show "(x < 1 / 2) = (2 * r < d)" .
    have "(1 / 2 < x) = (1 / 2 * (of_int d :: rat) < of_int r)"
      using d by (simp add: x_def pos_less_divide_eq)
    also have "\<dots> = ((of_int d :: rat) < of_int (2 * r))"
      by (simp add: mult.commute)
    also have "\<dots> = (d < 2 * r)"
      by (simp only: of_int_less_iff)
    finally show "(1 / 2 < x) = (d < 2 * r)" .
  qed
  have x_range: "0 \<le> x" "x < 1"
    using r d by (simp_all add: x_def)
  consider "2 * r < d" | "d < 2 * r" | "2 * r = d"
    by linarith
  then show ?thesis
  proof cases
    case 1
    then have "round_nearest_even n d = m"
      by (simp add: round_nearest_even_def Let_def m_def r_def)
    moreover from 1 have "x < 1 / 2"
      by (simp only: x_half)
    ultimately show ?thesis
      using x_range by (simp add: quot)
  next
    case 2
    then have "round_nearest_even n d = m + 1"
      by (simp add: round_nearest_even_def Let_def m_def r_def)
    moreover from 2 have "1 / 2 < x"
      by (simp only: x_half)
    ultimately show ?thesis
      using x_range by (simp add: quot)
  next
    case 3
    then have "\<not> 2 * r < d" "\<not> d < 2 * r"
      by simp_all
    then have "\<not> x < 1 / 2" "\<not> 1 / 2 < x"
      by (simp_all only: x_half not_False_eq_True)
    then have "x = 1 / 2"
      by simp
    moreover have "round_nearest_even n d = m \<or> round_nearest_even n d = m + 1"
      using 3 by (simp add: round_nearest_even_def Let_def m_def r_def)
    ultimately show ?thesis
      by (auto simp: quot)
  qed
qed

lemma bitlen_powi_bounds:
  assumes "0 < a"
  shows "2 powi (bitlen a - 1) \<le> (of_int a :: rat)" and "(of_int a :: rat) < 2 powi bitlen a"
proof -
  from assms have "bitlen a \<noteq> 0"
    by (simp add: bitlen_eq_zero_iff)
  with bitlen_nonneg [of a] have pos: "0 \<le> bitlen a - 1" "0 \<le> bitlen a"
    by simp_all
  from bitlen_bounds [OF assms]
  have lo: "2 ^ nat (bitlen a - 1) \<le> a" and hi: "a < 2 ^ nat (bitlen a)"
    by simp_all
  from lo have "(of_int (2 ^ nat (bitlen a - 1)) :: rat) \<le> of_int a"
    by (simp only: of_int_le_iff)
  then show "2 powi (bitlen a - 1) \<le> (of_int a :: rat)"
    using pos(1) by (simp add: power_int_nonneg_exp)
  from hi have "(of_int a :: rat) < of_int (2 ^ nat (bitlen a))"
    by (simp only: of_int_less_iff)
  then show "(of_int a :: rat) < 2 powi bitlen a"
    using pos(2) by (simp add: power_int_nonneg_exp)
qed

lemma floor_log2_test:
  assumes "0 < a" and "0 < b"
  shows "(shift_left b d \<le> shift_left a (- d)) = (2 powi d \<le> (of_int a / of_int b :: rat))"
proof -
  have den: "(0 :: rat) < of_int (shift_left b d)"
    using assms(2) by (simp add: shift_left_pos)
  have "(shift_left b d \<le> shift_left a (- d))
          = ((of_int (shift_left b d) :: rat) \<le> of_int (shift_left a (- d)))"
    by (simp only: of_int_le_iff)
  also have "\<dots> = (1 \<le> (of_int (shift_left a (- d)) :: rat) / of_int (shift_left b d))"
    using den by (simp add: pos_le_divide_eq)
  also have "\<dots> = (1 \<le> (of_int a / of_int b :: rat) * 2 powi (- d))"
    by (simp only: shift_ratio)
  also have "\<dots> = (1 \<le> (of_int a / of_int b :: rat) / 2 powi d)"
    by (simp only: power_int_minus_divide times_divide_eq_right mult_1_right)
  also have "\<dots> = (1 * 2 powi d \<le> (of_int a / of_int b :: rat))"
    by (rule pos_le_divide_eq) simp
  also have "\<dots> = (2 powi d \<le> (of_int a / of_int b :: rat))"
    by (simp only: mult_1)
  finally show ?thesis .
qed

lemma floor_log2_bracket:
  assumes "0 < a" and "0 < b"
  shows "2 powi floor_log2 a b \<le> (of_int a / of_int b :: rat)"
    and "(of_int a / of_int b :: rat) < 2 powi (floor_log2 a b + 1)"
proof -
  define q :: rat where "q = of_int a / of_int b"
  define d where "d = bitlen a - bitlen b"
  have a: "(0 :: rat) < of_int a" and b: "(0 :: rat) < of_int b"
    using assms by simp_all
  have two: "(2 :: rat) \<noteq> 0"
    by simp
  have "q < 2 powi bitlen a / of_int b"
    unfolding q_def using bitlen_powi_bounds(2) [OF assms(1)] b
    by (simp add: divide_strict_right_mono)
  also have "\<dots> \<le> 2 powi bitlen a / 2 powi (bitlen b - 1)"
    using bitlen_powi_bounds(1) [OF assms(2)] b
    by (intro divide_left_mono) simp_all
  also have "\<dots> = 2 powi (d + 1)"
    by (simp add: d_def power_int_diff [symmetric] algebra_simps)
  finally have upper: "q < 2 powi (d + 1)" .
  have "2 powi (d - 1) = 2 powi (bitlen a - 1) / (2 :: rat) powi bitlen b"
    by (simp add: d_def power_int_diff [symmetric] algebra_simps)
  also have "\<dots> \<le> of_int a / 2 powi bitlen b"
    using bitlen_powi_bounds(1) [OF assms(1)]
    by (intro divide_right_mono) simp_all
  also have "\<dots> \<le> q"
    unfolding q_def using bitlen_powi_bounds(2) [OF assms(2)] a b
    by (intro divide_left_mono) simp_all
  finally have lower: "2 powi (d - 1) \<le> q" .
  have test: "(shift_left b d \<le> shift_left a (- d)) = (2 powi d \<le> q)"
    unfolding q_def using assms by (rule floor_log2_test)
  show "2 powi floor_log2 a b \<le> (of_int a / of_int b :: rat)"
    using lower test
    by (simp add: floor_log2_def Let_def d_def [symmetric] q_def [symmetric])
  show "(of_int a / of_int b :: rat) < 2 powi (floor_log2 a b + 1)"
    using upper test
    by (simp add: floor_log2_def Let_def d_def [symmetric] q_def [symmetric] not_le)
qed

lemma binary64_quotient_error:
  assumes "0 < a" and "0 < b"
  shows "\<bar>binary64_quotient a b - of_int a / of_int b\<bar> \<le> (of_int a / of_int b) / 2 ^ 53"
proof -
  define q :: rat where "q = of_int a / of_int b"
  define e where "e = floor_log2 a b - 52"
  define m where "m = round_nearest_even (shift_left a (- e)) (shift_left b e)"
  define x :: rat where "x = of_int (shift_left a (- e)) / of_int (shift_left b e)"
  define u :: rat where "u = 2 powi e"
  have u: "0 < u"
    by (simp add: u_def)
  have result: "binary64_quotient a b = of_int m * u"
    by (simp add: binary64_quotient_def Let_def m_def e_def u_def)
  have "x = q * 2 powi (- e)"
    unfolding x_def q_def by (rule shift_ratio)
  then have "x = q / u"
    by (simp add: u_def power_int_minus_divide)
  with u have q: "q = x * u"
    by simp
  have "0 < shift_left b e"
    using assms(2) by (rule shift_left_pos)
  then have "\<bar>of_int m - x\<bar> \<le> 1 / 2"
    unfolding m_def x_def by (rule round_nearest_even_error)
  then have "\<bar>of_int m - x\<bar> * u \<le> 1 / 2 * u"
    using u by (intro mult_right_mono) simp_all
  moreover have "\<bar>of_int m * u - q\<bar> = \<bar>of_int m - x\<bar> * u"
    using u by (simp add: q abs_mult left_diff_distrib [symmetric])
  ultimately have close: "\<bar>of_int m * u - q\<bar> \<le> u / 2"
    by simp
  have "2 powi floor_log2 a b \<le> q"
    unfolding q_def using assms by (rule floor_log2_bracket(1))
  moreover have "(2 :: rat) powi floor_log2 a b = u * 2 ^ 52"
  proof -
    have "floor_log2 a b = e + 52"
      by (simp add: e_def)
    moreover have "(2 :: rat) powi (e + 52) = 2 powi e * 2 powi 52"
      by (rule power_int_add) simp
    ultimately have "(2 :: rat) powi floor_log2 a b = 2 powi e * 2 powi 52"
      by (simp only:)
    then show ?thesis
      by (simp add: u_def)
  qed
  ultimately have "u * 2 ^ 52 \<le> q"
    by simp
  then have "u / 2 \<le> q / 2 ^ 53"
    by simp
  with close have "\<bar>of_int m * u - q\<bar> \<le> q / 2 ^ 53"
    by simp
  then show ?thesis
    by (simp only: result q_def)
qed

lemma double_div_error:
  assumes "b \<noteq> 0"
  shows "\<exists>r. valof (double_div a b) = Some r \<and>
           \<bar>r - of_int a / of_int b\<bar> \<le> \<bar>of_int a / of_int b\<bar> / 2 ^ 53"
proof (cases "a = 0")
  case True
  with assms show ?thesis
    by (simp add: double_div_def)
next
  case False
  define q :: rat where "q = of_int \<bar>a\<bar> / of_int \<bar>b\<bar>"
  define r where "r = binary64_quotient \<bar>a\<bar> \<bar>b\<bar>"
  from False assms have pos: "0 < \<bar>a\<bar>" "0 < \<bar>b\<bar>"
    by simp_all
  then have err: "\<bar>r - q\<bar> \<le> q / 2 ^ 53"
    unfolding r_def q_def by (rule binary64_quotient_error)
  have q_abs: "q = \<bar>of_int a / of_int b\<bar>"
    by (simp add: q_def)
  show ?thesis
  proof (cases "(a < 0) = (b < 0)")
    case True
    then have "(of_int a / of_int b :: rat) = q"
      using False assms by (auto simp: q_def abs_if)
    moreover from True False assms have "valof (double_div a b) = Some r"
      by (simp add: double_div_def r_def)
    ultimately show ?thesis
      using err q_abs by simp
  next
    case neg: False
    then have "(of_int a / of_int b :: rat) = - q"
      using False assms by (auto simp: q_def abs_if)
    moreover from neg False assms have "valof (double_div a b) = Some (- r)"
      by (simp add: double_div_def r_def)
    moreover have "\<bar>- r - - q\<bar> = \<bar>r - q\<bar>"
      by (simp add: abs_minus_commute)
    ultimately show ?thesis
      using err q_abs by simp
  qed
qed

lemma double_div_by_zero:
  "double_div a 0 \<in> {PlusInfinity, MinusInfinity, NaN}"
  by (simp add: double_div_def)

lemma is_binary64_minus: "is_binary64 r \<Longrightarrow> is_binary64 (- r)"
proof -
  assume "is_binary64 r"
  then obtain m e where "r = of_int m * 2 powi e" "\<bar>m\<bar> < 2 ^ 53" "- 1074 \<le> e" "e \<le> 971"
    unfolding is_binary64_def by blast
  then have "- r = of_int (- m) * 2 powi e \<and> \<bar>- m\<bar> < 2 ^ 53 \<and> - 1074 \<le> e \<and> e \<le> 971"
    by simp
  then show ?thesis
    unfolding is_binary64_def by blast
qed

lemma is_binary64_zero: "is_binary64 0"
proof -
  have "(0 :: rat) = of_int 0 * 2 powi 0 \<and> \<bar>0 :: int\<bar> < 2 ^ 53 \<and> - 1074 \<le> (0 :: int) \<and> (0 :: int) \<le> 971"
    by simp
  then show ?thesis
    unfolding is_binary64_def by blast
qed

lemma powi2_le_cancel: "(2 :: rat) powi m \<le> 2 powi n \<Longrightarrow> m \<le> n"
proof (rule ccontr)
  assume le: "(2 :: rat) powi m \<le> 2 powi n" and "\<not> m \<le> n"
  then have "n < m"
    by simp
  then have "(2 :: rat) powi n < 2 powi m"
    by (rule power_int_strict_increasing) simp
  with le show False
    by simp
qed

lemma powi2_less_cancel: "(2 :: rat) powi m < 2 powi n \<Longrightarrow> m < n"
proof (rule ccontr)
  assume less: "(2 :: rat) powi m < 2 powi n" and "\<not> m < n"
  then have "n \<le> m"
    by simp
  then have "(2 :: rat) powi n \<le> 2 powi m"
    by (rule power_int_increasing) simp
  with less show False
    by simp
qed

lemma of_int_int32_bounds:
  assumes "0 < a" and "a \<le> 2 ^ 31"
  shows "(1 :: rat) \<le> of_int a" and "(of_int a :: rat) \<le> 2 ^ 31"
proof -
  from assms(1) show "(1 :: rat) \<le> of_int a"
    by simp
  from assms(2) have "(of_int a :: rat) \<le> of_int (2 ^ 31)"
    by (simp only: of_int_le_iff)
  then show "(of_int a :: rat) \<le> 2 ^ 31"
    by simp
qed

lemma floor_log2_range:
  assumes "0 < a" and "a \<le> 2 ^ 31" and "0 < b" and "b \<le> 2 ^ 31"
  shows "- 31 \<le> floor_log2 a b" and "floor_log2 a b \<le> 31"
proof -
  define q :: rat where "q = of_int a / of_int b"
  note a = of_int_int32_bounds [OF assms(1,2)]
  note b = of_int_int32_bounds [OF assms(3,4)]
  have pos: "(0 :: rat) < of_int a" "(0 :: rat) < of_int b"
    using assms(1,3) by simp_all
  have "q \<le> of_int a / 1"
    unfolding q_def using b(1) pos by (intro divide_left_mono) simp_all
  with a(2) have "q \<le> 2 ^ 31"
    by simp
  then have q_hi: "q \<le> 2 powi 31"
    by simp
  have "1 / 2 ^ 31 \<le> 1 / (of_int b :: rat)"
    using b(2) pos by (intro divide_left_mono) simp_all
  also have "\<dots> \<le> q"
    unfolding q_def using a(1) pos by (intro divide_right_mono) simp_all
  finally have "1 / 2 ^ 31 \<le> q" .
  moreover have "(2 :: rat) powi (- 31) = 1 / 2 ^ 31"
    by (simp add: power_int_minus_divide)
  ultimately have q_lo: "2 powi (- 31) \<le> q"
    by simp
  have "2 powi floor_log2 a b \<le> q"
    unfolding q_def using assms(1,3) by (rule floor_log2_bracket(1))
  with q_hi have "(2 :: rat) powi floor_log2 a b \<le> 2 powi 31"
    by (rule order_trans [rotated])
  then show "floor_log2 a b \<le> 31"
    by (rule powi2_le_cancel)
  have "q < 2 powi (floor_log2 a b + 1)"
    unfolding q_def using assms(1,3) by (rule floor_log2_bracket(2))
  with q_lo have "(2 :: rat) powi (- 31) < 2 powi (floor_log2 a b + 1)"
    by (rule le_less_trans)
  then have "- 31 < floor_log2 a b + 1"
    by (rule powi2_less_cancel)
  then show "- 31 \<le> floor_log2 a b"
    by simp
qed

lemma significand_bracket:
  assumes "0 < a" and "0 < b"
  defines "e \<equiv> floor_log2 a b - 52"
  defines "x \<equiv> (of_int (shift_left a (- e)) :: rat) / of_int (shift_left b e)"
  shows "2 ^ 52 \<le> x" and "x < 2 ^ 53"
proof -
  define q :: rat where "q = of_int a / of_int b"
  define s :: rat where "s = 2 powi (- e)"
  have s: "0 < s"
    by (simp add: s_def)
  have x: "x = q * s"
    unfolding x_def q_def s_def by (rule shift_ratio)
  have "(2 :: rat) powi (floor_log2 a b + (- e)) = 2 powi floor_log2 a b * 2 powi (- e)"
    by (rule power_int_add) simp
  moreover have "floor_log2 a b + (- e) = 52"
    by (simp add: e_def)
  ultimately have lo: "2 powi floor_log2 a b * s = 2 ^ 52"
    by (simp add: s_def)
  have "(2 :: rat) powi (floor_log2 a b + 1) = 2 powi floor_log2 a b * 2"
    by (rule power_int_add_1) simp
  then have "2 powi (floor_log2 a b + 1) * s = (2 powi floor_log2 a b * s) * 2"
    by simp
  also have "\<dots> = 2 ^ 52 * 2"
    by (simp only: lo)
  also have "\<dots> = (2 :: rat) ^ 53"
    by simp
  finally have hi: "2 powi (floor_log2 a b + 1) * s = 2 ^ 53" .
  have "2 powi floor_log2 a b \<le> q"
    unfolding q_def using assms(1,2) by (rule floor_log2_bracket(1))
  then have "2 powi floor_log2 a b * s \<le> q * s"
    using s by (intro mult_right_mono) simp_all
  then show "2 ^ 52 \<le> x"
    by (simp only: lo x)
  have "q < 2 powi (floor_log2 a b + 1)"
    unfolding q_def using assms(1,2) by (rule floor_log2_bracket(2))
  then have "q * s < 2 powi (floor_log2 a b + 1) * s"
    using s by (intro mult_strict_right_mono)
  then show "x < 2 ^ 53"
    by (simp only: hi x)
qed

lemma significand_bounds:
  assumes "0 < a" and "0 < b"
  defines "e \<equiv> floor_log2 a b - 52"
  defines "m \<equiv> round_nearest_even (shift_left a (- e)) (shift_left b e)"
  shows "0 < m" and "m \<le> 2 ^ 53"
proof -
  define x :: rat where "x = of_int (shift_left a (- e)) / of_int (shift_left b e)"
  have lo: "2 ^ 52 \<le> x" and hi: "x < 2 ^ 53"
    unfolding x_def e_def using assms(1,2) by (rule significand_bracket)+
  have "0 < shift_left b e"
    using assms(2) by (rule shift_left_pos)
  then have err: "\<bar>of_int m - x\<bar> \<le> 1 / 2"
    unfolding m_def x_def by (rule round_nearest_even_error)
  from err have "x - 1 / 2 \<le> of_int m \<and> of_int m \<le> x + 1 / 2"
    by (simp only: abs_diff_le_iff)
  then have near: "x - 1 / 2 \<le> of_int m" "of_int m \<le> x + 1 / 2"
    by blast+
  have "(1 :: rat) \<le> 2 ^ 52"
    by simp
  with lo near(1) have "(0 :: rat) < of_int m"
    by linarith
  then show "0 < m"
    by simp
  from near(2) hi have "(of_int m :: rat) < 2 ^ 53 + 1"
    by linarith
  also have "\<dots> = of_int (2 ^ 53 + 1)"
    by simp
  finally have "m < 2 ^ 53 + 1"
    by (simp only: of_int_less_iff)
  then show "m \<le> 2 ^ 53"
    by simp
qed

lemma binary64_quotient_representable:
  assumes "0 < a" and "a \<le> 2 ^ 31" and "0 < b" and "b \<le> 2 ^ 31"
  shows "is_binary64 (binary64_quotient a b)"
proof -
  define e where "e = floor_log2 a b - 52"
  define m where "m = round_nearest_even (shift_left a (- e)) (shift_left b e)"
  have result: "binary64_quotient a b = of_int m * 2 powi e"
    by (simp add: binary64_quotient_def Let_def m_def e_def)
  have m: "0 < m" "m \<le> 2 ^ 53"
    unfolding m_def e_def using assms(1,3) by (rule significand_bounds)+
  have e: "- 83 \<le> e" "e \<le> - 21"
    using floor_log2_range [OF assms] by (simp_all add: e_def)
  show ?thesis
  proof (cases "m < 2 ^ 53")
    case True
    with m e result
    have "binary64_quotient a b = of_int m * 2 powi e \<and> \<bar>m\<bar> < 2 ^ 53 \<and> - 1074 \<le> e \<and> e \<le> 971"
      by simp
    then show ?thesis
      unfolding is_binary64_def by blast
  next
    case False
    with m have top: "m = 2 ^ 53"
      by simp
    have "(2 :: rat) powi (e + 1) = 2 powi e * 2"
      by (rule power_int_add_1) simp
    then have "of_int (2 ^ 52) * (2 :: rat) powi (e + 1) = of_int m * 2 powi e"
      by (simp add: top)
    with result e
    have "binary64_quotient a b = of_int (2 ^ 52) * 2 powi (e + 1) \<and>
          \<bar>2 ^ 52 :: int\<bar> < 2 ^ 53 \<and> - 1074 \<le> e + 1 \<and> e + 1 \<le> 971"
      by simp
    then show ?thesis
      unfolding is_binary64_def by blast
  qed
qed

lemma double_div_representable:
  assumes "b \<noteq> 0" and "\<bar>a\<bar> \<le> 2 ^ 31" and "\<bar>b\<bar> \<le> 2 ^ 31"
  shows "\<exists>r. valof (double_div a b) = Some r \<and> is_binary64 r"
proof (cases "a = 0")
  case True
  with assms(1) show ?thesis
    by (simp add: double_div_def is_binary64_zero)
next
  case False
  with assms(1) have "0 < \<bar>a\<bar>" and "0 < \<bar>b\<bar>"
    by simp_all
  then have rep: "is_binary64 (binary64_quotient \<bar>a\<bar> \<bar>b\<bar>)"
    using assms(2,3) by (simp add: binary64_quotient_representable)
  show ?thesis
  proof (cases "(a < 0) = (b < 0)")
    case True
    with False assms(1) have "valof (double_div a b) = Some (binary64_quotient \<bar>a\<bar> \<bar>b\<bar>)"
      by (simp add: double_div_def)
    with rep show ?thesis
      by simp
  next
    case neg: False
    with False assms(1) have "valof (double_div a b) = Some (- binary64_quotient \<bar>a\<bar> \<bar>b\<bar>)"
      by (simp add: double_div_def)
    with rep show ?thesis
      by (simp add: is_binary64_minus)
  qed
qed

lemma sint32_magnitude: "\<bar>sint (w :: 32 word)\<bar> \<le> 2 ^ 31"
  using sint_ge [of w] sint_lt [of w] by simp

lemma sint_nonzero: "w \<noteq> 0 \<Longrightarrow> sint w \<noteq> 0"
  by (simp add: signed_eq_0_iff)

text \<open>
  C10, as stated: on every fader whose length is not zero, \<open>GetHandleValueHeadroom\<close> returns
  the ratio of the handle headroom to the length. The claim fails on a fader of length
  100 with a headroom of 20: the ratio is one fifth, which no double holds, and the
  function returns the double next to it.
\<close>

theorem GetHandleValueHeadroom_not_the_ratio:
  "GetHandleValueHeadroom
     \<lparr>inherited = (), mLen = 100, mHandleHeadroom = 20, mBitmap = (), mDirection = (),
      mOnlyHandle = False\<rparr> = Finite (3602879701896397 / 18014398509481984) \<and>
   (3602879701896397 / 18014398509481984 :: rat) \<noteq> 20 / 100"
  by (simp add: GetHandleValueHeadroom_def double_div_def binary64_quotient_def floor_log2_def
        shift_left_def round_nearest_even_def compute_bitlen Let_def)

text \<open>
  C10, amended: \<open>GetHandleValueHeadroom\<close> divides by \<open>mLen\<close> without a guard, and on a fader
  of length zero it returns an infinity or not-a-number. On every fader whose length is not
  zero no division by zero takes place, and the function returns the ratio of the handle
  headroom to the length rounded to a double: a finite double whose distance from the
  ratio is at most the magnitude of the ratio divided by \<open>2 ^ 53\<close>.
\<close>

theorem GetHandleValueHeadroom_rounded_ratio:
  "(mLen f \<noteq> 0 \<longrightarrow>
      (\<exists>r. valof (GetHandleValueHeadroom f) = Some r \<and> is_binary64 r \<and>
         \<bar>r - of_int (sint (mHandleHeadroom f)) / of_int (sint (mLen f))\<bar>
           \<le> \<bar>of_int (sint (mHandleHeadroom f)) / of_int (sint (mLen f))\<bar> / 2 ^ 53)) \<and>
   (mLen f = 0 \<longrightarrow> GetHandleValueHeadroom f \<in> {PlusInfinity, MinusInfinity, NaN})"
proof (intro conjI impI)
  assume "mLen f \<noteq> 0"
  then have nonzero: "sint (mLen f) \<noteq> 0"
    by (rule sint_nonzero)
  from double_div_error [OF nonzero, of "sint (mHandleHeadroom f)"]
  obtain r where r: "valof (double_div (sint (mHandleHeadroom f)) (sint (mLen f))) = Some r"
    and close: "\<bar>r - of_int (sint (mHandleHeadroom f)) / of_int (sint (mLen f))\<bar>
           \<le> \<bar>of_int (sint (mHandleHeadroom f)) / of_int (sint (mLen f))\<bar> / 2 ^ 53"
    by blast
  from double_div_representable [OF nonzero sint32_magnitude sint32_magnitude]
  obtain r' where "valof (double_div (sint (mHandleHeadroom f)) (sint (mLen f))) = Some r'"
    and "is_binary64 r'"
    by blast
  with r have "is_binary64 r"
    by simp
  with r close show "\<exists>r. valof (GetHandleValueHeadroom f) = Some r \<and> is_binary64 r \<and>
         \<bar>r - of_int (sint (mHandleHeadroom f)) / of_int (sint (mLen f))\<bar>
           \<le> \<bar>of_int (sint (mHandleHeadroom f)) / of_int (sint (mLen f))\<bar> / 2 ^ 53"
    unfolding GetHandleValueHeadroom_def by blast
next
  assume "mLen f = 0"
  then have "GetHandleValueHeadroom f = double_div (sint (mHandleHeadroom f)) 0"
    by (simp add: GetHandleValueHeadroom_def)
  then show "GetHandleValueHeadroom f \<in> {PlusInfinity, MinusInfinity, NaN}"
    by (simp only: double_div_by_zero)
qed

theorem GetHandleValueHeadroom_rounded_ratio_witness:
  "(\<exists>r. valof (GetHandleValueHeadroom
            \<lparr>inherited = (), mLen = 49, mHandleHeadroom = 1, mBitmap = (), mDirection = (),
             mOnlyHandle = False\<rparr>) = Some r \<and> is_binary64 r \<and>
        \<bar>r - 1 / 49\<bar> \<le> 1 / 49 / 2 ^ 53) \<and>
   GetHandleValueHeadroom
     \<lparr>inherited = (), mLen = 0, mHandleHeadroom = 20, mBitmap = (), mDirection = (),
      mOnlyHandle = False\<rparr> \<in> {PlusInfinity, MinusInfinity, NaN}"
proof -
  have nonzero: "mLen \<lparr>inherited = (), mLen = 49 :: 32 word, mHandleHeadroom = 1 :: 32 word,
      mBitmap = (), mDirection = (), mOnlyHandle = False\<rparr> \<noteq> 0"
    by simp
  have zero: "mLen \<lparr>inherited = (), mLen = 0 :: 32 word, mHandleHeadroom = 20 :: 32 word,
      mBitmap = (), mDirection = (), mOnlyHandle = False\<rparr> = 0"
    by simp
  from GetHandleValueHeadroom_rounded_ratio [THEN conjunct1, rule_format, OF nonzero]
  have "\<exists>r. valof (GetHandleValueHeadroom
            \<lparr>inherited = (), mLen = 49, mHandleHeadroom = 1, mBitmap = (), mDirection = (),
             mOnlyHandle = False\<rparr>) = Some r \<and> is_binary64 r \<and>
        \<bar>r - 1 / 49\<bar> \<le> 1 / 49 / 2 ^ 53"
    by simp
  moreover
  from GetHandleValueHeadroom_rounded_ratio [THEN conjunct2, rule_format, OF zero]
  have "GetHandleValueHeadroom
     \<lparr>inherited = (), mLen = 0, mHandleHeadroom = 20, mBitmap = (), mDirection = (),
      mOnlyHandle = False\<rparr> \<in> {PlusInfinity, MinusInfinity, NaN}" .
  ultimately show ?thesis
    by (rule conjI)
qed

subsection \<open>The class hierarchy\<close>

lemma ISwitchControl_derives: "derives_from ISwitchControl IControl"
proof -
  have "derives_from IBitmapControl IControl"
    by (rule derives_from.direct) simp
  then show ?thesis
    by (rule derives_from.transitive [rotated]) simp
qed

lemma IKnobControl_derives: "derives_from IKnobControl IControl"
  by (rule derives_from.direct) simp

lemma ICaptionControl_derives: "derives_from ICaptionControl IControl"
proof -
  have "derives_from ITextControl IControl"
    by (rule derives_from.direct) simp
  then show ?thesis
    by (rule derives_from.transitive [rotated]) simp
qed

lemma switch_subclass_derives:
  "base_class c = Some ISwitchControl \<Longrightarrow> derives_from c IControl"
  by (rule derives_from.transitive [OF _ ISwitchControl_derives])

lemma knob_subclass_derives:
  "base_class c = Some IKnobControl \<Longrightarrow> derives_from c IControl"
  by (rule derives_from.transitive [OF _ IKnobControl_derives])

lemma widget_classes_derive:
  "c \<in> set widget_classes \<Longrightarrow> derives_from c IControl"
  unfolding widget_classes_def
  by (auto intro: ISwitchControl_derives IKnobControl_derives ICaptionControl_derives
        switch_subclass_derives knob_subclass_derives derives_from.direct)

lemma every_kind_defined: "\<exists>c \<in> set widget_classes. kind c = Some k"
  by (cases k) (simp_all add: widget_classes_def)

text \<open>
  C6. For each of the kinds listed (knob, slider, switch, radio buttons, caption, URL
  link, bitmap text) the header declares a class of that kind, and every class the header
  declares derives from \<open>IControl\<close>, directly or through its bases.
\<close>

theorem widgets_derive_from_IControl:
  "(\<exists>c \<in> set widget_classes. kind c = Some k) \<and>
   (\<forall>c \<in> set widget_classes. derives_from c IControl)"
  using every_kind_defined widget_classes_derive by blast

theorem widgets_derive_from_IControl_witness:
  "IContactControl \<in> set widget_classes \<and> derives_from IContactControl IControl \<and>
   ICaptionControl \<in> set widget_classes \<and> derives_from ICaptionControl IControl \<and>
   IBitmapTextControl \<in> set widget_classes \<and> derives_from IBitmapTextControl IControl"
proof -
  have contact: "IContactControl \<in> set widget_classes"
    and caption: "ICaptionControl \<in> set widget_classes"
    and bitmap_text: "IBitmapTextControl \<in> set widget_classes"
    by (simp_all add: widget_classes_def)
  from widgets_derive_from_IControl [of Slider]
  have all: "\<forall>c \<in> set widget_classes. derives_from c IControl"
    by (rule conjunct2)
  from all contact have "derives_from IContactControl IControl"
    by (rule bspec)
  moreover from all caption have "derives_from ICaptionControl IControl"
    by (rule bspec)
  moreover from all bitmap_text have "derives_from IBitmapTextControl IControl"
    by (rule bspec)
  ultimately show ?thesis
    using contact caption bitmap_text by simp
qed

subsection \<open>Clicking a switch\<close>

lemma OnMouseDown_mod:
  assumes "s < N"
  shows "ISwitchControl_OnMouseDown N s = (s + 1) mod N"
proof (cases "s + 1 < N")
  case True
  then show ?thesis
    by (simp add: ISwitchControl_OnMouseDown_def)
next
  case False
  with assms have N: "N = s + 1"
    by simp
  show ?thesis
    unfolding N by (simp add: ISwitchControl_OnMouseDown_def)
qed

lemma clicks_mod:
  assumes "s < N"
  shows "(ISwitchControl_OnMouseDown N ^^ k) s = (s + k) mod N"
proof (induction k)
  case 0
  from assms show ?case
    by simp
next
  case (Suc k)
  have "(s + k) mod N < N"
    using assms by simp
  then have "ISwitchControl_OnMouseDown N ((s + k) mod N) = ((s + k) mod N + 1) mod N"
    by (rule OnMouseDown_mod)
  also have "\<dots> = (s + Suc k) mod N"
    by (simp add: mod_Suc_eq)
  finally show ?case
    using Suc by simp
qed

lemma shifted_state_differs:
  assumes "0 < k" and "k < N" and "s < N"
  shows "(s + k) mod N \<noteq> (s::nat)"
proof (cases "s + k < N")
  case True
  with assms show ?thesis
    by simp
next
  case False
  then have "N \<le> s + k"
    by simp
  then have "(s + k) mod N = (s + k - N) mod N"
    by (rule le_mod_geq)
  also from assms False have "\<dots> = s + k - N"
    by simp
  finally show ?thesis
    using assms False by simp
qed

text \<open>
  C1. On a switch whose bitmap has \<open>N \<ge> 1\<close> states, a click moves the value to the next
  state and from the last state to the first; \<open>N\<close> clicks in a row bring the value back
  to the state it started from, and no smaller positive number of clicks does.
\<close>

theorem ISwitchControl_clicks_cycle:
  assumes "1 \<le> N" and "state < N"
  shows "(state + 1 < N \<longrightarrow> ISwitchControl_OnMouseDown N state = state + 1) \<and>
         (state + 1 = N \<longrightarrow> ISwitchControl_OnMouseDown N state = 0) \<and>
         (ISwitchControl_OnMouseDown N ^^ N) state = state \<and>
         (\<forall>k. 0 < k \<and> k < N \<longrightarrow> (ISwitchControl_OnMouseDown N ^^ k) state \<noteq> state)"
proof -
  have next_state: "state + 1 < N \<longrightarrow> ISwitchControl_OnMouseDown N state = state + 1"
    by (simp add: ISwitchControl_OnMouseDown_def)
  have wraps: "state + 1 = N \<longrightarrow> ISwitchControl_OnMouseDown N state = 0"
    by (simp add: ISwitchControl_OnMouseDown_def)
  have "(ISwitchControl_OnMouseDown N ^^ N) state = (state + N) mod N"
    using assms(2) by (rule clicks_mod)
  also have "\<dots> = state"
    using assms(2) by simp
  finally have returns: "(ISwitchControl_OnMouseDown N ^^ N) state = state" .
  have early: "\<forall>k. 0 < k \<and> k < N \<longrightarrow> (ISwitchControl_OnMouseDown N ^^ k) state \<noteq> state"
  proof (intro allI impI)
    fix k
    assume k: "0 < k \<and> k < N"
    then have "0 < k" and "k < N"
      by simp_all
    then have "(state + k) mod N \<noteq> state"
      using assms(2) by (rule shifted_state_differs)
    moreover have "(ISwitchControl_OnMouseDown N ^^ k) state = (state + k) mod N"
      using assms(2) by (rule clicks_mod)
    ultimately show "(ISwitchControl_OnMouseDown N ^^ k) state \<noteq> state"
      by simp
  qed
  show ?thesis
    by (rule conjI [OF next_state conjI [OF wraps conjI [OF returns early]]])
qed

theorem ISwitchControl_clicks_cycle_witness:
  "ISwitchControl_OnMouseDown 3 1 = 2 \<and> ISwitchControl_OnMouseDown 3 2 = 0 \<and>
   (ISwitchControl_OnMouseDown 3 ^^ 3) 1 = 1 \<and>
   (ISwitchControl_OnMouseDown 3 ^^ 2) 1 \<noteq> 1"
proof -
  have n: "(1::nat) \<le> 3" and s1: "(1::nat) < 3" and s2: "(2::nat) < 3"
    by simp_all
  note at1 = ISwitchControl_clicks_cycle [OF n s1]
  note at2 = ISwitchControl_clicks_cycle [OF n s2]
  from at1 have "(1::nat) + 1 < 3 \<longrightarrow> ISwitchControl_OnMouseDown 3 1 = 1 + 1"
    by (rule conjunct1)
  then have next_state: "ISwitchControl_OnMouseDown 3 1 = 2"
    by simp
  from at2 have "(2::nat) + 1 = 3 \<longrightarrow> ISwitchControl_OnMouseDown 3 2 = 0"
    by (rule conjunct1 [OF conjunct2])
  then have wraps: "ISwitchControl_OnMouseDown 3 2 = 0"
    by simp
  from at1 have returns: "(ISwitchControl_OnMouseDown 3 ^^ 3) 1 = 1"
    by (rule conjunct1 [OF conjunct2 [OF conjunct2]])
  from at1 have "\<forall>k. 0 < k \<and> k < 3 \<longrightarrow> (ISwitchControl_OnMouseDown 3 ^^ k) 1 \<noteq> 1"
    by (rule conjunct2 [OF conjunct2 [OF conjunct2]])
  then have "0 < (2::nat) \<and> (2::nat) < 3 \<longrightarrow> (ISwitchControl_OnMouseDown 3 ^^ 2) 1 \<noteq> 1"
    by (rule spec)
  then have early: "(ISwitchControl_OnMouseDown 3 ^^ 2) 1 \<noteq> 1"
    by simp
  from next_state wraps returns early show ?thesis
    by (intro conjI)
qed

end
